theory Spec2Isabelle
  imports Main
begin

section \<open>The browser as seen by the token lifecycle code\<close>

text \<open>
  The code under study is \<^verbatim>\<open>src/src/services/auth.ts\<close> (class AuthService), the
  ApiClient of \<^verbatim>\<open>src/unnamed/part_002\<close> and the hook useAuthInterceptor of
  \<^verbatim>\<open>src/unnamed/part_003\<close>. Everything they touch besides their arguments is made
  explicit:
  \<^item> \<^verbatim>\<open>localStorage\<close> is a partial map from keys to strings;
  \<^item> every \<^verbatim>\<open>fetch\<close> is appended to a log of requests, and its outcome is read
    from a network oracle;
  \<^item> \<^verbatim>\<open>window.location.href\<close> is a field of the state;
  \<^item> \<^verbatim>\<open>new Date()\<close> and \<^verbatim>\<open>new Date(s)\<close> are read from a host record: the
    current time in milliseconds, and the parser of date strings, which yields no
    time value for a string that is not a date (JavaScript's Invalid Date).
  One call runs without interleaving of other event handlers: the store is the same
  before and after an \<^verbatim>\<open>await\<close>, and the clock is read once per call.
\<close>

datatype payload = NoPayload | RefreshPayload string | JsonPayload string

record request =
  url :: string
  verb :: string
  authorization :: "string option"
  body :: payload

record browser =
  localStorage :: "string \<rightharpoonup> string"
  requests :: "request list"
  href :: string

record host =
  dateParse :: "string \<Rightarrow> int option"
  now :: int

text \<open>
  A response carries its status and its body. The body is read by
  \<^verbatim>\<open>response.json()\<close>, which may reject; the error branch reads it as an untyped
  object (its fields \<^verbatim>\<open>error\<close>, \<^verbatim>\<open>message\<close>, \<^verbatim>\<open>detail\<close>), the success
  branch at the type the caller asked for.
\<close>

record 'a response =
  status :: nat
  errorJson :: "(string \<rightharpoonup> string) option"
  json :: "'a option"

datatype 'a fetch_outcome = Rejected | Resolved "'a response"

datatype error = Error string | FetchFailed | JsonFailed

record RefreshTokenResponse =
  access :: string
  access_expires_at :: string
  message :: string

text \<open>\<^verbatim>\<open>response.ok\<close> of the Fetch standard: the status is in the range 200 to 299.\<close>

definition ok :: "'a response \<Rightarrow> bool" where
  "ok r = (200 \<le> status r \<and> status r \<le> 299)"

text \<open>JavaScript's truthiness of a value of type \<^verbatim>\<open>string | null\<close>: null and the
  empty string are falsy.\<close>

definition falsy :: "string option \<Rightarrow> bool" where
  "falsy v = (case v of None \<Rightarrow> True | Some s \<Rightarrow> s = [])"

definition truthy :: "string option \<Rightarrow> bool" where
  "truthy v = (\<not> falsy v)"

definition getItem :: "string \<Rightarrow> browser \<Rightarrow> string option" where
  "getItem k st = localStorage st k"

definition setItem :: "string \<Rightarrow> string \<Rightarrow> browser \<Rightarrow> browser" where
  "setItem k v st = st\<lparr>localStorage := (localStorage st)(k \<mapsto> v)\<rparr>"

definition removeItem :: "string \<Rightarrow> browser \<Rightarrow> browser" where
  "removeItem k st = st\<lparr>localStorage := (localStorage st)(k := None)\<rparr>"

section \<open>AuthService: token storage\<close>

definition BASE_URL :: string where
  "BASE_URL = ''http://127.0.0.1:8000/api/v1/accounts''"

definition getStoredAccessToken :: "browser \<Rightarrow> string option" where
  "getStoredAccessToken st = getItem ''kmrl-access-token'' st"

definition getStoredRefreshToken :: "browser \<Rightarrow> string option" where
  "getStoredRefreshToken st = getItem ''kmrl-refresh-token'' st"

definition storeTokens :: "string \<Rightarrow> string \<Rightarrow> string \<Rightarrow> string \<Rightarrow> browser \<Rightarrow> browser" where
  "storeTokens accessToken refreshToken accessExpiresAt refreshExpiresAt st =
     setItem ''kmrl-refresh-expires-at'' refreshExpiresAt
       (setItem ''kmrl-access-expires-at'' accessExpiresAt
         (setItem ''kmrl-refresh-token'' refreshToken
           (setItem ''kmrl-access-token'' accessToken st)))"

definition removeTokens :: "browser \<Rightarrow> browser" where
  "removeTokens st =
     removeItem ''kmrl-refresh-expires-at''
       (removeItem ''kmrl-access-expires-at''
         (removeItem ''kmrl-refresh-token''
           (removeItem ''kmrl-access-token'' st)))"

definition removeUser :: "browser \<Rightarrow> browser" where
  "removeUser st = removeItem ''kmrl-user-data'' st"

text \<open>\<^verbatim>\<open>new Date() >= new Date(expiresAt)\<close>: a comparison with Invalid Date is false.\<close>

definition isTokenExpired :: "host \<Rightarrow> string \<Rightarrow> bool" where
  "isTokenExpired h expiresAt =
     (case dateParse h expiresAt of None \<Rightarrow> False | Some t \<Rightarrow> t \<le> now h)"

definition isAccessTokenExpired :: "host \<Rightarrow> browser \<Rightarrow> bool" where
  "isAccessTokenExpired h st =
     (case getItem ''kmrl-access-expires-at'' st of
        None \<Rightarrow> True
      | Some expiresAt \<Rightarrow> if expiresAt = [] then True else isTokenExpired h expiresAt)"

definition isRefreshTokenExpired :: "host \<Rightarrow> browser \<Rightarrow> bool" where
  "isRefreshTokenExpired h st =
     (case getItem ''kmrl-refresh-expires-at'' st of
        None \<Rightarrow> True
      | Some expiresAt \<Rightarrow> if expiresAt = [] then True else isTokenExpired h expiresAt)"






section \<open>AuthService: requests and the refresh exchange\<close>

text \<open>The decimal digits of a status code, for the template string of the error message.\<close>

function string_of_nat :: "nat \<Rightarrow> string" where
  "string_of_nat n =
     (if n < 10 then [char_of (48 + n)]
      else string_of_nat (n div 10) @ [char_of (48 + n mod 10)])"
  by pat_completeness auto
termination
  by (relation "measure id") auto

declare string_of_nat.simps [simp del]

text \<open>\<^verbatim>\<open>v || d\<close> on strings: the left operand when it is truthy, else the right one.\<close>

definition orElse :: "string option \<Rightarrow> string \<Rightarrow> string" where
  "orElse v d = (case v of None \<Rightarrow> d | Some s \<Rightarrow> if s = [] then d else s)"

definition errorMessage :: "'a response \<Rightarrow> string" where
  "errorMessage r =
     (let errorData = (case errorJson r of None \<Rightarrow> Map.empty | Some m \<Rightarrow> m)
      in orElse (errorData ''error'')
           (orElse (errorData ''message'')
             (orElse (errorData ''detail'')
               (''HTTP error! status: '' @ string_of_nat (status r)))))"

text \<open>AuthService.handleResponse: it reads the response and touches nothing else.\<close>

definition AuthService_handleResponse :: "'a response \<Rightarrow> error + 'a" where
  "AuthService_handleResponse r =
     (if ok r then (case json r of None \<Rightarrow> Inl JsonFailed | Some v \<Rightarrow> Inr v)
      else Inl (Error (errorMessage r)))"

text \<open>AuthService.getAuthHeaders: the Authorization header, set for a truthy token.
  The Content-Type header is the same on every request and is left out.\<close>

definition AuthService_getAuthHeaders :: "string option \<Rightarrow> string option" where
  "AuthService_getAuthHeaders token =
     (case token of None \<Rightarrow> None | Some t \<Rightarrow> if t = [] then None else Some (''Bearer '' @ t))"

definition fetch :: "(request \<Rightarrow> 'a fetch_outcome) \<Rightarrow> request \<Rightarrow> browser \<Rightarrow> 'a fetch_outcome \<times> browser" where
  "fetch net req st = (net req, st\<lparr>requests := requests st @ [req]\<rparr>)"

text \<open>The request of AuthService.refreshToken: a POST to the refresh endpoint, without
  an Authorization header, whose body \<open>RefreshPayload r\<close> stands for
  \<^verbatim>\<open>JSON.stringify({ refresh: r })\<close>.\<close>

definition refreshRequest :: "string \<Rightarrow> request" where
  "refreshRequest refreshToken =
     \<lparr>url = BASE_URL @ ''/auth/token/refresh/'', verb = ''POST'',
      authorization = AuthService_getAuthHeaders None, body = RefreshPayload refreshToken\<rparr>"

definition refreshToken ::
  "(request \<Rightarrow> RefreshTokenResponse fetch_outcome) \<Rightarrow> string \<Rightarrow> browser
     \<Rightarrow> (error + RefreshTokenResponse) \<times> browser" where
  "refreshToken net rt st =
     (case fetch net (refreshRequest rt) st of
        (Rejected, st1) \<Rightarrow> (Inl FetchFailed, st1)
      | (Resolved r, st1) \<Rightarrow> (AuthService_handleResponse r, st1))"

text \<open>AuthService.getProfile stands for the methods that send a caller-supplied token:
  each of them is a fetch followed by AuthService.handleResponse.\<close>

definition getProfile ::
  "(request \<Rightarrow> 'a fetch_outcome) \<Rightarrow> string \<Rightarrow> browser \<Rightarrow> (error + 'a) \<times> browser" where
  "getProfile net token st =
     (case fetch net \<lparr>url = BASE_URL @ ''/profile/'', verb = ''GET'',
                        authorization = AuthService_getAuthHeaders (Some token),
                        body = NoPayload\<rparr> st of
        (Rejected, st1) \<Rightarrow> (Inl FetchFailed, st1)
      | (Resolved r, st1) \<Rightarrow> (AuthService_handleResponse r, st1))"

text \<open>
  getValidAccessToken. The guards are in the source's order. The call of
  \<^verbatim>\<open>console.error\<close> in the catch block writes to no state of the program and is
  left out. \<^verbatim>\<open>localStorage.getItem('kmrl-refresh-expires-at')!\<close> is passed to
  \<^verbatim>\<open>setItem\<close>, which would store the string "null" for a missing key.
\<close>

definition getValidAccessToken ::
  "host \<Rightarrow> (request \<Rightarrow> RefreshTokenResponse fetch_outcome) \<Rightarrow> browser
     \<Rightarrow> string option \<times> browser" where
  "getValidAccessToken h net st =
     (case getStoredAccessToken st of
        None \<Rightarrow> (None, st)
      | Some accessToken \<Rightarrow>
          if accessToken = [] then (None, st)
          else (case getStoredRefreshToken st of
            None \<Rightarrow> (None, st)
          | Some rt \<Rightarrow>
              if rt = [] then (None, st)
              else if \<not> isAccessTokenExpired h st then (Some accessToken, st)
              else if isRefreshTokenExpired h st then (None, removeUser (removeTokens st))
              else (case refreshToken net rt st of
                (Inr refreshResponse, st1) \<Rightarrow>
                  (Some (access refreshResponse),
                   storeTokens (access refreshResponse) rt (access_expires_at refreshResponse)
                     (case getItem ''kmrl-refresh-expires-at'' st1 of
                        None \<Rightarrow> ''null'' | Some e \<Rightarrow> e)
                     st1)
              | (Inl e, st1) \<Rightarrow> (None, removeUser (removeTokens st1)))))"

definition isAuthenticated :: "host \<Rightarrow> browser \<Rightarrow> bool" where
  "isAuthenticated h st =
     (truthy (getStoredAccessToken st) \<and> truthy (getStoredRefreshToken st)
      \<and> \<not> isRefreshTokenExpired h st)"

section \<open>ApiClient\<close>

definition ApiClient_getAuthHeaders ::
  "host \<Rightarrow> (request \<Rightarrow> RefreshTokenResponse fetch_outcome) \<Rightarrow> browser
     \<Rightarrow> string option \<times> browser" where
  "ApiClient_getAuthHeaders h rnet st =
     (case getValidAccessToken h rnet st of
        (token, st1) \<Rightarrow>
          ((case token of None \<Rightarrow> None
            | Some t \<Rightarrow> if t = [] then None else Some (''Bearer '' @ t)), st1))"

definition ApiClient_handleResponse :: "'a response \<Rightarrow> browser \<Rightarrow> (error + 'a) \<times> browser" where
  "ApiClient_handleResponse r st =
     (if ok r then ((case json r of None \<Rightarrow> Inl JsonFailed | Some v \<Rightarrow> Inr v), st)
      else if status r = 401
        then (Inl (Error ''Authentication required. Please login again.''),
              (removeUser (removeTokens st))\<lparr>href := ''/''\<rparr>)
      else (Inl (Error (errorMessage r)), st))"

text \<open>The common shape of get, post, put, patch and delete: the headers are awaited,
  the request is sent, the response is handed to ApiClient.handleResponse.\<close>

definition ApiClient_send ::
  "host \<Rightarrow> (request \<Rightarrow> RefreshTokenResponse fetch_outcome) \<Rightarrow> (request \<Rightarrow> 'a fetch_outcome)
     \<Rightarrow> string \<Rightarrow> string \<Rightarrow> payload \<Rightarrow> browser \<Rightarrow> (error + 'a) \<times> browser" where
  "ApiClient_send h rnet net v u b st =
     (case ApiClient_getAuthHeaders h rnet st of
        (headers, st1) \<Rightarrow>
          (case fetch net \<lparr>url = u, verb = v, authorization = headers, body = b\<rparr> st1 of
             (Rejected, st2) \<Rightarrow> (Inl FetchFailed, st2)
           | (Resolved r, st2) \<Rightarrow> ApiClient_handleResponse r st2))"

text \<open>The five methods. The query string of \<^verbatim>\<open>get\<close> is the result of
  \<^verbatim>\<open>URLSearchParams.toString()\<close>; the data of the others is its JSON text, or
  \<open>None\<close> for falsy data.\<close>

definition toBody :: "string option \<Rightarrow> payload" where
  "toBody d = (case d of None \<Rightarrow> NoPayload | Some j \<Rightarrow> JsonPayload j)"

definition ApiClient_get ::
  "host \<Rightarrow> (request \<Rightarrow> RefreshTokenResponse fetch_outcome) \<Rightarrow> (request \<Rightarrow> 'a fetch_outcome)
     \<Rightarrow> string \<Rightarrow> string \<Rightarrow> string \<Rightarrow> browser \<Rightarrow> (error + 'a) \<times> browser" where
  "ApiClient_get h rnet net baseURL endpoint queryParams st =
     ApiClient_send h rnet net ''GET''
       (baseURL @ endpoint @ (if queryParams = [] then [] else ''?'' @ queryParams))
       NoPayload st"

definition ApiClient_post ::
  "host \<Rightarrow> (request \<Rightarrow> RefreshTokenResponse fetch_outcome) \<Rightarrow> (request \<Rightarrow> 'a fetch_outcome)
     \<Rightarrow> string \<Rightarrow> string \<Rightarrow> string option \<Rightarrow> browser \<Rightarrow> (error + 'a) \<times> browser" where
  "ApiClient_post h rnet net baseURL endpoint d st =
     ApiClient_send h rnet net ''POST'' (baseURL @ endpoint) (toBody d) st"

definition ApiClient_put ::
  "host \<Rightarrow> (request \<Rightarrow> RefreshTokenResponse fetch_outcome) \<Rightarrow> (request \<Rightarrow> 'a fetch_outcome)
     \<Rightarrow> string \<Rightarrow> string \<Rightarrow> string option \<Rightarrow> browser \<Rightarrow> (error + 'a) \<times> browser" where
  "ApiClient_put h rnet net baseURL endpoint d st =
     ApiClient_send h rnet net ''PUT'' (baseURL @ endpoint) (toBody d) st"

definition ApiClient_patch ::
  "host \<Rightarrow> (request \<Rightarrow> RefreshTokenResponse fetch_outcome) \<Rightarrow> (request \<Rightarrow> 'a fetch_outcome)
     \<Rightarrow> string \<Rightarrow> string \<Rightarrow> string option \<Rightarrow> browser \<Rightarrow> (error + 'a) \<times> browser" where
  "ApiClient_patch h rnet net baseURL endpoint d st =
     ApiClient_send h rnet net ''PATCH'' (baseURL @ endpoint) (toBody d) st"

definition ApiClient_delete ::
  "host \<Rightarrow> (request \<Rightarrow> RefreshTokenResponse fetch_outcome) \<Rightarrow> (request \<Rightarrow> 'a fetch_outcome)
     \<Rightarrow> string \<Rightarrow> string \<Rightarrow> browser \<Rightarrow> (error + 'a) \<times> browser" where
  "ApiClient_delete h rnet net baseURL endpoint st =
     ApiClient_send h rnet net ''DELETE'' (baseURL @ endpoint) NoPayload st"

section \<open>useAuthInterceptor: the background check\<close>

text \<open>
  The hook takes \<^verbatim>\<open>token\<close>, \<^verbatim>\<open>isAuthenticated\<close>, \<^verbatim>\<open>refreshAccessToken\<close> and
  \<^verbatim>\<open>logout\<close> from the AuthContext and \<^verbatim>\<open>navigate\<close> from the router; none of them
  is in the sources, so they are parameters. An awaited call either fulfils with a
  value or rejects.

  Timers are those of the browser: a clock in milliseconds, the intervals that
  \<^verbatim>\<open>setInterval\<close> registered (identifier, delay, the time the callback is next due,
  the callback), and a log of the callbacks that have run, each with its time and its
  timer's identifier. One tick advances the clock by a millisecond, runs every
  interval that is due and arms it again one delay later. An interval of delay zero
  is outside this model (the hook registers 300000).
\<close>

datatype 'a promise = Fulfils 'a | Rejects

datatype action = CallRefreshAccessToken | CallLogout | ConsoleError | Navigate string

datatype completion = Completed | UnhandledRejection

record 'c timer =
  ident :: nat
  delay :: nat
  due :: nat
  callback :: 'c

record 'c timers =
  clock :: nat
  intervals :: "'c timer list"
  nextId :: nat
  fired :: "(nat \<times> nat \<times> 'c) list"

definition setInterval :: "'c \<Rightarrow> nat \<Rightarrow> 'c timers \<Rightarrow> nat \<times> 'c timers" where
  "setInterval cb d ts =
     (nextId ts,
      ts\<lparr>intervals := intervals ts
            @ [\<lparr>ident = nextId ts, delay = d, due = clock ts + d, callback = cb\<rparr>],
         nextId := Suc (nextId ts)\<rparr>)"

definition clearInterval :: "nat \<Rightarrow> 'c timers \<Rightarrow> 'c timers" where
  "clearInterval i ts = ts\<lparr>intervals := filter (\<lambda>t. ident t \<noteq> i) (intervals ts)\<rparr>"

definition tick :: "'c timers \<Rightarrow> 'c timers" where
  "tick ts =
     ts\<lparr>clock := Suc (clock ts),
        intervals :=
          map (\<lambda>t. if due t = Suc (clock ts) then t\<lparr>due := Suc (clock ts) + delay t\<rparr> else t)
            (intervals ts),
        fired := fired ts @ map (\<lambda>t. (Suc (clock ts), ident t, callback t))
                              (filter (\<lambda>t. due t = Suc (clock ts)) (intervals ts))\<rparr>"

fun elapse :: "nat \<Rightarrow> 'c timers \<Rightarrow> 'c timers" where
  "elapse 0 ts = ts"
| "elapse (Suc n) ts = tick (elapse n ts)"

text \<open>The runs of the timer with identifier \<open>i\<close>, in order.\<close>

definition firingsOf :: "nat \<Rightarrow> 'c timers \<Rightarrow> (nat \<times> nat \<times> 'c) list" where
  "firingsOf i ts = filter (\<lambda>e. fst (snd e) = i) (fired ts)"

text \<open>
  checkAndRefreshToken, with the outcome of the awaited \<^verbatim>\<open>refreshAccessToken()\<close>
  and the outcomes of the first and the second call of \<^verbatim>\<open>logout()\<close>. A rejection
  inside the \<^verbatim>\<open>try\<close> block enters the \<^verbatim>\<open>catch\<close> block; a rejection inside the
  \<^verbatim>\<open>catch\<close> block leaves the callback.
\<close>

definition catchBlock :: "unit promise \<Rightarrow> action list \<times> completion" where
  "catchBlock l =
     (case l of
        Fulfils u \<Rightarrow> ([ConsoleError, CallLogout, Navigate ''/''], Completed)
      | Rejects \<Rightarrow> ([ConsoleError, CallLogout], UnhandledRejection))"

definition checkAndRefreshToken ::
  "bool promise \<Rightarrow> unit promise \<Rightarrow> unit promise \<Rightarrow> action list \<times> completion" where
  "checkAndRefreshToken r l1 l2 =
     (case r of
        Fulfils success \<Rightarrow>
          if success then ([CallRefreshAccessToken], Completed)
          else (case l1 of
                  Fulfils u \<Rightarrow> ([CallRefreshAccessToken, CallLogout, Navigate ''/''], Completed)
                | Rejects \<Rightarrow>
                    (case catchBlock l2 of
                       (acts, c) \<Rightarrow> ([CallRefreshAccessToken, CallLogout] @ acts, c)))
      | Rejects \<Rightarrow>
          (case catchBlock l1 of (acts, c) \<Rightarrow> (CallRefreshAccessToken # acts, c)))"

type_synonym check = "bool promise \<Rightarrow> unit promise \<Rightarrow> unit promise \<Rightarrow> action list \<times> completion"

text \<open>The body of the effect: it registers checkAndRefreshToken itself as the callback
  and returns the cleanup, here the identifier that the cleanup passes to
  \<^verbatim>\<open>clearInterval\<close>, or nothing when it returned early.\<close>

definition effect :: "string option \<Rightarrow> bool \<Rightarrow> check timers \<Rightarrow> nat option \<times> check timers" where
  "effect token isAuth ts =
     (if falsy token \<or> \<not> isAuth then (None, ts)
      else (case setInterval checkAndRefreshToken (5 * 60 * 1000) ts of
              (interval, ts1) \<Rightarrow> (Some interval, ts1)))"

definition cleanup :: "nat option \<Rightarrow> 'c timers \<Rightarrow> 'c timers" where
  "cleanup c ts = (case c of None \<Rightarrow> ts | Some interval \<Rightarrow> clearInterval interval ts)"

section \<open>The properties of the specification, in its own words\<close>

text \<open>"A refresh token is stored and its refresh-expiry timestamp is strictly in the
  future": the right-hand side that the specification gives for "is authenticated".\<close>

definition refreshValidSpec :: "host \<Rightarrow> browser \<Rightarrow> bool" where
  "refreshValidSpec h st =
     (case getStoredRefreshToken st of
        None \<Rightarrow> False
      | Some r \<Rightarrow>
          (case getItem ''kmrl-refresh-expires-at'' st of
             None \<Rightarrow> False
           | Some e \<Rightarrow> (case dateParse h e of None \<Rightarrow> False | Some t \<Rightarrow> now h < t)))"


text \<open>All four credential keys and the cached user profile are absent.\<close>

definition purged :: "browser \<Rightarrow> bool" where
  "purged st =
     (getItem ''kmrl-access-token'' st = None \<and> getItem ''kmrl-refresh-token'' st = None
      \<and> getItem ''kmrl-access-expires-at'' st = None
      \<and> getItem ''kmrl-refresh-expires-at'' st = None
      \<and> getItem ''kmrl-user-data'' st = None)"

section \<open>Concrete hosts, stores and servers\<close>

text \<open>A host whose clock reads 2026-01-01 and which knows one date before and one
  after it; every other string is no date.\<close>

definition past :: string where
  "past = ''2020-01-01T00:00:00Z''"

definition future :: string where
  "future = ''2030-01-01T00:00:00Z''"

definition host0 :: host where
  "host0 =
     \<lparr>dateParse = (\<lambda>s. if s = ''2030-01-01T00:00:00Z'' then Some 1893456000000
                        else if s = ''2020-01-01T00:00:00Z'' then Some 1577836800000
                        else None),
      now = 1767225600000\<rparr>"

definition mkBrowser :: "(string \<times> string) list \<Rightarrow> browser" where
  "mkBrowser kvs = \<lparr>localStorage = map_of kvs, requests = [], href = ''/dashboard''\<rparr>"

definition browserStale :: browser where
  "browserStale = mkBrowser
     [(''kmrl-access-token'', ''old''), (''kmrl-refresh-token'', ''r1''),
      (''kmrl-access-expires-at'', past), (''kmrl-refresh-expires-at'', future),
      (''kmrl-user-data'', ''{}'')]"

definition browserFresh :: browser where
  "browserFresh = mkBrowser
     [(''kmrl-access-token'', ''acc''), (''kmrl-refresh-token'', ''r1''),
      (''kmrl-access-expires-at'', future), (''kmrl-refresh-expires-at'', future),
      (''kmrl-user-data'', ''{}'')]"

definition browserExpired :: browser where
  "browserExpired = mkBrowser
     [(''kmrl-access-token'', ''old''), (''kmrl-refresh-token'', ''r1''),
      (''kmrl-access-expires-at'', past), (''kmrl-refresh-expires-at'', past),
      (''kmrl-user-data'', ''{}'')]"

definition browserRefreshOnly :: browser where
  "browserRefreshOnly = mkBrowser
     [(''kmrl-refresh-token'', ''r1''), (''kmrl-refresh-expires-at'', future)]"

definition browserRefreshOnlyExpired :: browser where
  "browserRefreshOnlyExpired = mkBrowser
     [(''kmrl-refresh-token'', ''r1''), (''kmrl-refresh-expires-at'', past),
      (''kmrl-user-data'', ''{}'')]"

definition browserFreshAccessExpiredRefresh :: browser where
  "browserFreshAccessExpiredRefresh = mkBrowser
     [(''kmrl-access-token'', ''acc''), (''kmrl-refresh-token'', ''r1''),
      (''kmrl-access-expires-at'', future), (''kmrl-refresh-expires-at'', past)]"

definition browserNoDate :: browser where
  "browserNoDate = mkBrowser
     [(''kmrl-access-token'', ''acc''), (''kmrl-refresh-token'', ''r1''),
      (''kmrl-access-expires-at'', past), (''kmrl-refresh-expires-at'', ''soon'')]"

definition browserEmpty :: browser where
  "browserEmpty = mkBrowser []"

definition serverRefreshes :: "string \<Rightarrow> request \<Rightarrow> RefreshTokenResponse fetch_outcome" where
  "serverRefreshes expiresAt req =
     Resolved \<lparr>status = 200, errorJson = None,
               json = Some \<lparr>access = ''new'', access_expires_at = expiresAt, message = ''ok''\<rparr>\<rparr>"

definition serverRejects :: "request \<Rightarrow> 'a fetch_outcome" where
  "serverRejects req = Resolved \<lparr>status = 401, errorJson = Some Map.empty, json = None\<rparr>"

text \<open>A store that accepts every write, and one that is full once the refresh token
  has been written.\<close>

definition acceptAll :: "browser \<Rightarrow> string \<Rightarrow> string \<Rightarrow> bool" where
  "acceptAll st k v = True"

definition roomForTwo :: "browser \<Rightarrow> string \<Rightarrow> string \<Rightarrow> bool" where
  "roomForTwo st k v = (getItem ''kmrl-refresh-token'' st = None)"

text \<open>The timers of a page that has registered nothing yet.\<close>

definition noTimers :: "check timers" where
  "noTimers = \<lparr>clock = 0, intervals = [], nextId = 0, fired = []\<rparr>"

section \<open>Helper facts\<close>

lemmas storage_defs =
  getItem_def setItem_def removeItem_def getStoredAccessToken_def getStoredRefreshToken_def
  storeTokens_def removeTokens_def removeUser_def

lemmas concrete_defs =
  host0_def mkBrowser_def past_def future_def browserStale_def browserFresh_def
  browserExpired_def browserRefreshOnly_def browserRefreshOnlyExpired_def
  browserFreshAccessExpiredRefresh_def browserNoDate_def browserEmpty_def
  serverRefreshes_def serverRejects_def acceptAll_def roomForTwo_def noTimers_def

lemma refreshToken_requests:
  "requests (snd (refreshToken net rt st)) = requests st @ [refreshRequest rt]"
  by (simp add: refreshToken_def fetch_def split: fetch_outcome.splits)

lemma refreshToken_keeps_store:
  "localStorage (snd (refreshToken net rt st)) = localStorage st"
  by (simp add: refreshToken_def fetch_def split: fetch_outcome.splits)

lemma purged_removeUser_removeTokens: "purged (removeUser (removeTokens st))"
  by (simp add: purged_def storage_defs)

section \<open>Storage round trip\<close>

text \<open>
  Claim C10. After \<^verbatim>\<open>storeTokens(a, r, ae, re)\<close> the two getters return \<open>a\<close> and
  \<open>r\<close>, the two expiry checks evaluate the stored \<open>ae\<close> and \<open>re\<close> (an empty
  string counts as expired, any other string is compared with the clock), and after
  \<^verbatim>\<open>removeTokens()\<close> both getters return null. This holds from every prior store.
\<close>

theorem storeTokens_round_trip:
  "getStoredAccessToken (storeTokens a r ae re st) = Some a \<and>
   getStoredRefreshToken (storeTokens a r ae re st) = Some r \<and>
   isAccessTokenExpired h (storeTokens a r ae re st) = (if ae = [] then True else isTokenExpired h ae) \<and>
   isRefreshTokenExpired h (storeTokens a r ae re st) = (if re = [] then True else isTokenExpired h re) \<and>
   getStoredAccessToken (removeTokens st) = None \<and>
   getStoredRefreshToken (removeTokens st) = None"
  by (simp add: storage_defs isAccessTokenExpired_def isRefreshTokenExpired_def)

section \<open>Obtaining a valid access token\<close>

text \<open>
  Claim C7. When both tokens are stored (and non-empty, as the code's truthiness test
  asks) and the stored access-expiry is a date strictly after the clock reading (a
  non-empty string, as every date is), getValidAccessToken returns the stored access
  token and the whole state is the one before the call: no request was logged and no
  key of the store has changed.
\<close>

theorem getValidAccessToken_fresh:
  assumes "getStoredAccessToken st = Some a" and "a \<noteq> []"
    and "getStoredRefreshToken st = Some r" and "r \<noteq> []"
    and "getItem ''kmrl-access-expires-at'' st = Some e" and "e \<noteq> []"
    and "dateParse h e = Some t" and "now h < t"
  shows "getValidAccessToken h net st = (Some a, st)"
  using assms
  by (simp add: getValidAccessToken_def isAccessTokenExpired_def isTokenExpired_def)

theorem getValidAccessToken_fresh_witness:
  "getStoredAccessToken browserFresh = Some ''acc'' \<and>
   getStoredRefreshToken browserFresh = Some ''r1'' \<and>
   getItem ''kmrl-access-expires-at'' browserFresh = Some future \<and>
   dateParse host0 future = Some 1893456000000 \<and>
   now host0 < 1893456000000 \<and>
   getValidAccessToken host0 (serverRefreshes future) browserFresh = (Some ''acc'', browserFresh)"
proof -
  have a: "getStoredAccessToken browserFresh = Some ''acc''"
    by (simp add: concrete_defs storage_defs)
  have r: "getStoredRefreshToken browserFresh = Some ''r1''"
    by (simp add: concrete_defs storage_defs)
  have e: "getItem ''kmrl-access-expires-at'' browserFresh = Some future"
    by (simp add: concrete_defs storage_defs)
  have ne: "future \<noteq> []" by (simp add: future_def)
  have d: "dateParse host0 future = Some 1893456000000"
    by (simp add: host0_def future_def)
  have n: "now host0 < 1893456000000" by (simp add: host0_def)
  have "getValidAccessToken host0 (serverRefreshes future) browserFresh = (Some ''acc'', browserFresh)"
    using getValidAccessToken_fresh [OF a _ r _ e ne d n] by simp
  with a r e d n show ?thesis by simp
qed

text \<open>
  Claim C9. When the stored access token or the stored refresh token is absent (null,
  or the empty string, which the code treats alike), getValidAccessToken returns
  null and the whole state is the one before the call: no request, no purge. The
  witness is the store that holds an unexpired refresh token alone.
\<close>

theorem getValidAccessToken_missing:
  assumes "falsy (getStoredAccessToken st) \<or> falsy (getStoredRefreshToken st)"
  shows "getValidAccessToken h net st = (None, st)"
  using assms
  by (auto simp add: getValidAccessToken_def falsy_def split: option.splits)

theorem getValidAccessToken_missing_witness:
  "falsy (getStoredAccessToken browserRefreshOnly) \<and>
   getStoredRefreshToken browserRefreshOnly = Some ''r1'' \<and>
   \<not> isRefreshTokenExpired host0 browserRefreshOnly \<and>
   getValidAccessToken host0 (serverRefreshes future) browserRefreshOnly
     = (None, browserRefreshOnly)"
proof -
  have f: "falsy (getStoredAccessToken browserRefreshOnly)"
    by (simp add: concrete_defs storage_defs falsy_def)
  have r: "getStoredRefreshToken browserRefreshOnly = Some ''r1''"
    by (simp add: concrete_defs storage_defs)
  have x: "\<not> isRefreshTokenExpired host0 browserRefreshOnly"
    by (simp add: concrete_defs storage_defs isRefreshTokenExpired_def isTokenExpired_def)
  from f have "getValidAccessToken host0 (serverRefreshes future) browserRefreshOnly
     = (None, browserRefreshOnly)"
    by (intro getValidAccessToken_missing) simp
  with f r x show ?thesis by simp
qed





text \<open>
  Claim C4, as amended. When both tokens are stored (and non-empty), the access token
  is expired and the refresh token is expired too, getValidAccessToken returns null,
  logs no request, and removes the four credential keys and the cached user profile;
  nothing else changes. The guards that come first decide the other stores: without
  an access token the call returns null and purges nothing, and with an unexpired
  access token it returns that token.
\<close>

theorem getValidAccessToken_refresh_expired:
  assumes "getStoredAccessToken st = Some a" and "a \<noteq> []"
    and "getStoredRefreshToken st = Some rt" and "rt \<noteq> []"
    and "isAccessTokenExpired h st" and "isRefreshTokenExpired h st"
  shows "getValidAccessToken h net st =
           (None, st\<lparr>localStorage := (localStorage st)
                        (''kmrl-access-token'' := None, ''kmrl-refresh-token'' := None,
                         ''kmrl-access-expires-at'' := None, ''kmrl-refresh-expires-at'' := None,
                         ''kmrl-user-data'' := None)\<rparr>)
         \<and> purged (snd (getValidAccessToken h net st))
         \<and> requests (snd (getValidAccessToken h net st)) = requests st"
  using assms by (simp add: getValidAccessToken_def storage_defs purged_def)

theorem getValidAccessToken_refresh_expired_witness:
  "getStoredAccessToken browserExpired = Some ''old'' \<and>
   getStoredRefreshToken browserExpired = Some ''r1'' \<and>
   isAccessTokenExpired host0 browserExpired \<and>
   isRefreshTokenExpired host0 browserExpired \<and>
   fst (getValidAccessToken host0 (serverRefreshes future) browserExpired) = None \<and>
   purged (snd (getValidAccessToken host0 (serverRefreshes future) browserExpired)) \<and>
   requests (snd (getValidAccessToken host0 (serverRefreshes future) browserExpired)) = []"
proof -
  have a: "getStoredAccessToken browserExpired = Some ''old''"
    by (simp add: concrete_defs storage_defs)
  have r: "getStoredRefreshToken browserExpired = Some ''r1''"
    by (simp add: concrete_defs storage_defs)
  have x: "isAccessTokenExpired host0 browserExpired"
    by (simp add: concrete_defs storage_defs isAccessTokenExpired_def isTokenExpired_def)
  have y: "isRefreshTokenExpired host0 browserExpired"
    by (simp add: concrete_defs storage_defs isRefreshTokenExpired_def isTokenExpired_def)
  have q: "requests browserExpired = []"
    by (simp add: concrete_defs)
  note main = getValidAccessToken_refresh_expired [OF a _ r _ x y, of "serverRefreshes future"]
  from main q a r x y show ?thesis by (simp add: purged_def getItem_def)
qed

theorem getValidAccessToken_refresh_expired_counterexample:
  "getStoredRefreshToken browserRefreshOnlyExpired = Some ''r1'' \<and>
   isRefreshTokenExpired host0 browserRefreshOnlyExpired \<and>
   getValidAccessToken host0 (serverRefreshes future) browserRefreshOnlyExpired
     = (None, browserRefreshOnlyExpired) \<and>
   \<not> purged browserRefreshOnlyExpired \<and>
   getStoredRefreshToken browserFreshAccessExpiredRefresh = Some ''r1'' \<and>
   isRefreshTokenExpired host0 browserFreshAccessExpiredRefresh \<and>
   getValidAccessToken host0 (serverRefreshes future) browserFreshAccessExpiredRefresh
     = (Some ''acc'', browserFreshAccessExpiredRefresh)"
  by (simp add: concrete_defs storage_defs getValidAccessToken_def purged_def
      isAccessTokenExpired_def isRefreshTokenExpired_def isTokenExpired_def)

text \<open>
  Claim C6, as amended. A non-null result of getValidAccessToken comes about in one
  of two ways. Either nothing was sent and nothing changed: the result is the stored
  access token, and the stored access-expiry is a non-empty string that is not a date
  at or before the clock reading (a later date, or no date at all). Or one refresh
  request was sent and succeeded: the result is the response's access token, stored
  together with the response's expiry string, which is compared with nothing.
\<close>

theorem getValidAccessToken_result:
  assumes "getValidAccessToken h net st = (Some tok, st')"
  shows "(st' = st \<and> getStoredAccessToken st = Some tok
           \<and> (\<exists>e. getItem ''kmrl-access-expires-at'' st = Some e \<and> e \<noteq> []
                  \<and> (case dateParse h e of None \<Rightarrow> True | Some t \<Rightarrow> now h < t)))
         \<or> (\<exists>rt r resp. getStoredRefreshToken st = Some rt
               \<and> net (refreshRequest rt) = Resolved r \<and> ok r \<and> json r = Some resp
               \<and> tok = access resp
               \<and> requests st' = requests st @ [refreshRequest rt]
               \<and> getStoredAccessToken st' = Some tok
               \<and> getItem ''kmrl-access-expires-at'' st' = Some (access_expires_at resp))"
proof -
  obtain a where a: "getStoredAccessToken st = Some a" "a \<noteq> []"
    using assms by (auto simp add: getValidAccessToken_def split: option.splits if_splits)
  obtain rt where rt: "getStoredRefreshToken st = Some rt" "rt \<noteq> []"
    using assms a by (auto simp add: getValidAccessToken_def split: option.splits if_splits)
  show ?thesis
  proof (cases "isAccessTokenExpired h st")
    case False
    then have "\<exists>e. getItem ''kmrl-access-expires-at'' st = Some e \<and> e \<noteq> []
                  \<and> (case dateParse h e of None \<Rightarrow> True | Some t \<Rightarrow> now h < t)"
      by (auto simp add: isAccessTokenExpired_def isTokenExpired_def
               split: option.splits if_splits)
    moreover have "st' = st \<and> tok = a"
      using assms a rt False by (simp add: getValidAccessToken_def)
    ultimately show ?thesis using a by simp
  next
    case True
    have live: "\<not> isRefreshTokenExpired h st"
      using assms a rt True by (auto simp add: getValidAccessToken_def split: if_splits)
    obtain resp st1 where call: "refreshToken net rt st = (Inr resp, st1)"
      using assms a rt True live
      by (auto simp add: getValidAccessToken_def split: prod.splits sum.splits)
    then obtain r where r: "net (refreshRequest rt) = Resolved r" "ok r" "json r = Some resp"
      by (auto simp add: refreshToken_def fetch_def AuthService_handleResponse_def
               split: fetch_outcome.splits if_splits option.splits)
    have st1: "requests st1 = requests st @ [refreshRequest rt]"
      using refreshToken_requests [of net rt st] call by simp
    have res: "tok = access resp"
      and st': "st' = storeTokens (access resp) rt (access_expires_at resp)
                 (case getItem ''kmrl-refresh-expires-at'' st1 of None \<Rightarrow> ''null'' | Some e \<Rightarrow> e) st1"
      using assms a rt True live call by (auto simp add: getValidAccessToken_def)
    have "requests st' = requests st @ [refreshRequest rt]"
      using st' st1 by (simp add: storage_defs)
    moreover have "getStoredAccessToken st' = Some tok"
      using st' res by (simp add: storage_defs)
    moreover have "getItem ''kmrl-access-expires-at'' st' = Some (access_expires_at resp)"
      using st' by (simp add: storage_defs)
    ultimately show ?thesis using rt r res by blast
  qed
qed

theorem getValidAccessToken_result_witness:
  "getValidAccessToken host0 (serverRefreshes future) browserFresh = (Some ''acc'', browserFresh) \<and>
   getStoredAccessToken browserFresh = Some ''acc'' \<and>
   getItem ''kmrl-access-expires-at'' browserFresh = Some future \<and>
   requests browserFresh = []"
proof -
  have run: "getValidAccessToken host0 (serverRefreshes future) browserFresh
      = (Some ''acc'', browserFresh)"
    by (simp add: concrete_defs storage_defs getValidAccessToken_def
        isAccessTokenExpired_def isTokenExpired_def)
  have q: "requests browserFresh = []"
    by (simp add: concrete_defs)
  have e: "getItem ''kmrl-access-expires-at'' browserFresh = Some future"
    by (simp add: concrete_defs storage_defs)
  from getValidAccessToken_result [OF run] q
  have "getStoredAccessToken browserFresh = Some ''acc''" by auto
  with run q e show ?thesis by simp
qed

theorem getValidAccessToken_result_counterexample:
  "fst (getValidAccessToken host0 (serverRefreshes past) browserStale) = Some ''new'' \<and>
   getStoredAccessToken (snd (getValidAccessToken host0 (serverRefreshes past) browserStale))
     = Some ''new'' \<and>
   getItem ''kmrl-access-expires-at''
     (snd (getValidAccessToken host0 (serverRefreshes past) browserStale)) = Some past \<and>
   dateParse host0 past = Some 1577836800000 \<and>
   1577836800000 < now host0 \<and>
   isAccessTokenExpired host0 (snd (getValidAccessToken host0 (serverRefreshes past) browserStale))"
  by (simp add: concrete_defs storage_defs getValidAccessToken_def refreshToken_def fetch_def
      refreshRequest_def AuthService_handleResponse_def ok_def
      isAccessTokenExpired_def isRefreshTokenExpired_def isTokenExpired_def)

section \<open>Is authenticated\<close>

text \<open>
  Claim C2, as amended. isAuthenticated returns true exactly when an access token and
  a refresh token are both stored and non-empty, and the stored refresh-expiry is a
  non-empty string that is not a date at or before the clock reading: a date strictly
  in the future, or a string that is no date, which the comparison never finds
  expired. The access token's own expiry plays no part.
\<close>

theorem isAuthenticated_iff:
  "isAuthenticated h st =
     (truthy (getStoredAccessToken st) \<and> truthy (getStoredRefreshToken st) \<and>
      (case getItem ''kmrl-refresh-expires-at'' st of
         None \<Rightarrow> False
       | Some e \<Rightarrow> e \<noteq> [] \<and> (case dateParse h e of None \<Rightarrow> True | Some t \<Rightarrow> now h < t)))"
  by (auto simp add: isAuthenticated_def isRefreshTokenExpired_def isTokenExpired_def
           split: option.splits)

theorem isAuthenticated_counterexample:
  "refreshValidSpec host0 browserRefreshOnly \<and> \<not> isAuthenticated host0 browserRefreshOnly \<and>
   \<not> refreshValidSpec host0 browserNoDate \<and> isAuthenticated host0 browserNoDate"
  by (simp add: concrete_defs storage_defs refreshValidSpec_def isAuthenticated_def
      isRefreshTokenExpired_def isTokenExpired_def truthy_def falsy_def)

section \<open>Storing and clearing credentials\<close>




section \<open>Authentication rejections\<close>

text \<open>
  Every request of the ApiClient that is answered with status 401 ends with the four
  credential keys and the cached user profile removed, the location set to the entry
  point, and the error "Authentication required. Please login again.".
\<close>

lemma ApiClient_handleResponse_401:
  assumes "status r = 401"
  shows "ApiClient_handleResponse r st =
           (Inl (Error ''Authentication required. Please login again.''),
            (removeUser (removeTokens st))\<lparr>href := ''/''\<rparr>)"
  using assms by (simp add: ApiClient_handleResponse_def ok_def)

lemma ApiClient_send_401:
  assumes "ApiClient_send h rnet net v u b st = (res, st')"
    and "net (last (requests st')) = Resolved r" and "status r = 401"
  shows "res = Inl (Error ''Authentication required. Please login again.'')
         \<and> purged st' \<and> href st' = ''/''"
proof -
  obtain headers st1 where hd: "ApiClient_getAuthHeaders h rnet st = (headers, st1)"
    by (cases "ApiClient_getAuthHeaders h rnet st")
  define req where "req = \<lparr>url = u, verb = v, authorization = headers, body = b\<rparr>"
  define st2 where "st2 = st1\<lparr>requests := requests st1 @ [req]\<rparr>"
  have run: "(res, st') =
      (case net req of Rejected \<Rightarrow> (Inl FetchFailed, st2)
       | Resolved r' \<Rightarrow> ApiClient_handleResponse r' st2)"
    using assms(1) hd unfolding ApiClient_send_def fetch_def req_def st2_def by simp
  have keep: "requests (snd (ApiClient_handleResponse r' st2)) = requests st2" for r' :: "'a response"
    by (simp add: ApiClient_handleResponse_def storage_defs)
  have "requests st' = requests st2"
    using run keep by (cases "net req") (auto dest: arg_cong [where f = snd])
  then have "last (requests st') = req"
    by (simp add: st2_def)
  with assms(2) have "net req = Resolved r" by simp
  with run assms(3) have "(res, st') =
      (Inl (Error ''Authentication required. Please login again.''),
       (removeUser (removeTokens st2))\<lparr>href := ''/''\<rparr>)"
    by (simp add: ApiClient_handleResponse_401)
  then show ?thesis
    using purged_removeUser_removeTokens [of st2] by (simp add: purged_def getItem_def)
qed

text \<open>
  Claim C3. The requests that AuthService itself sends with a stored token go through
  AuthService.handleResponse, which has no branch for status 401. At the store below,
  getProfile answered with 401 returns the error "HTTP error! status: 401" and leaves
  the access token, the refresh token, both expiries and the cached user profile in
  the store, while the same answer to a request of the ApiClient purges them.
\<close>

theorem getProfile_401_keeps_credentials:
  "fst (getProfile (serverRejects :: request \<Rightarrow> unit fetch_outcome) ''acc'' browserFresh)
     = Inl (Error ''HTTP error! status: 401'') \<and>
   localStorage (snd (getProfile (serverRejects :: request \<Rightarrow> unit fetch_outcome) ''acc'' browserFresh))
     = localStorage browserFresh \<and>
   getStoredAccessToken browserFresh = Some ''acc'' \<and>
   \<not> purged (snd (getProfile (serverRejects :: request \<Rightarrow> unit fetch_outcome) ''acc'' browserFresh)) \<and>
   purged (snd (ApiClient_get host0 (serverRefreshes future)
                  (serverRejects :: request \<Rightarrow> unit fetch_outcome)
                  BASE_URL ''/profile/'' [] browserFresh))"
proof -
  have digits: "string_of_nat 401 = ''401''"
    by code_simp
  have fresh: "getValidAccessToken host0 (serverRefreshes future) browserFresh
      = (Some ''acc'', browserFresh)"
    by (simp add: concrete_defs storage_defs getValidAccessToken_def
        isAccessTokenExpired_def isTokenExpired_def)
  have "purged (snd (ApiClient_get host0 (serverRefreshes future)
                  (serverRejects :: request \<Rightarrow> unit fetch_outcome)
                  BASE_URL ''/profile/'' [] browserFresh))"
    by (simp add: ApiClient_get_def ApiClient_send_def ApiClient_getAuthHeaders_def fresh
        fetch_def serverRejects_def ApiClient_handleResponse_def ok_def
        purged_def storage_defs)
  moreover have "fst (getProfile (serverRejects :: request \<Rightarrow> unit fetch_outcome) ''acc'' browserFresh)
     = Inl (Error ''HTTP error! status: 401'')"
    by (simp add: getProfile_def fetch_def serverRejects_def AuthService_handleResponse_def
        ok_def errorMessage_def orElse_def digits)
  moreover have "localStorage (snd (getProfile (serverRejects :: request \<Rightarrow> unit fetch_outcome) ''acc'' browserFresh))
     = localStorage browserFresh"
    by (simp add: getProfile_def fetch_def serverRejects_def)
  moreover have "getStoredAccessToken browserFresh = Some ''acc''"
    by (simp add: concrete_defs storage_defs)
  ultimately show ?thesis
    by (simp add: purged_def storage_defs)
qed


section \<open>Background revalidation\<close>

text \<open>A timer of positive delay that is due a whole number of delays after it was
  registered is due again exactly when the time since then is a multiple of the delay.\<close>

lemma due_step:
  assumes "0 < d"
  shows "(d * Suc (n div d) = Suc n) = (Suc n mod d = 0)"
proof
  assume "d * Suc (n div d) = Suc n"
  then have "Suc n = d * Suc (n div d)" by simp
  then show "Suc n mod d = 0" by (metis mod_mult_self1_is_0)
next
  assume m: "Suc n mod d = 0"
  then have "Suc n div d = Suc (n div d)" by (simp add: div_Suc)
  moreover have "d * (Suc n div d) = Suc n" using m by (metis mult_div_mod_eq add.right_neutral)
  ultimately show "d * Suc (n div d) = Suc n" by simp
qed

lemma tick_firings:
  assumes "intervals ts = os @ [t]" and "\<forall>u\<in>set os. ident u \<noteq> ident t"
  shows "firingsOf (ident t) (tick ts) =
           firingsOf (ident t) ts @ (if due t = Suc (clock ts) then [(Suc (clock ts), ident t, callback t)] else [])"
  using assms by (simp add: firingsOf_def tick_def filter_map o_def filter_empty_conv)

lemma tick_clock: "clock (tick ts) = Suc (clock ts)"
  by (simp add: tick_def)

lemma tick_intervals_snoc:
  assumes "intervals ts = os @ [t]"
  shows "intervals (tick ts) =
           map (\<lambda>t. if due t = Suc (clock ts) then t\<lparr>due := Suc (clock ts) + delay t\<rparr> else t) os
           @ [if due t = Suc (clock ts) then t\<lparr>due := Suc (clock ts) + delay t\<rparr> else t]"
  using assms by (simp add: tick_def)

lemma elapse_registered:
  assumes d: "0 < d" and fresh: "\<forall>u\<in>set (intervals ts). ident u \<noteq> i"
    and s0: "s0 = ts\<lparr>intervals := intervals ts @ [\<lparr>ident = i, delay = d, due = clock ts + d, callback = cb\<rparr>],
                     nextId := N\<rparr>"
  shows "\<exists>os. intervals (elapse n s0)
              = os @ [\<lparr>ident = i, delay = d, due = clock ts + d * Suc (n div d), callback = cb\<rparr>]
          \<and> (\<forall>u\<in>set os. ident u \<noteq> i)
          \<and> clock (elapse n s0) = clock ts + n
          \<and> firingsOf i (elapse n s0)
              = firingsOf i ts @ map (\<lambda>k. (clock ts + d * k, i, cb)) [1..<Suc (n div d)]"
proof (induction n)
  case 0
  have "intervals (elapse 0 s0)
          = intervals ts @ [\<lparr>ident = i, delay = d, due = clock ts + d * Suc (0 div d), callback = cb\<rparr>]"
    using d s0 by simp
  moreover have "clock (elapse 0 s0) = clock ts + 0"
    using s0 by simp
  moreover have "firingsOf i (elapse 0 s0)
      = firingsOf i ts @ map (\<lambda>k. (clock ts + d * k, i, cb)) [1..<Suc (0 div d)]"
    using d s0 by (simp add: firingsOf_def)
  ultimately show ?case using fresh by blast
next
  case (Suc n)
  define s where "s = elapse n s0"
  define t where "t = \<lparr>ident = i, delay = d, due = clock ts + d * Suc (n div d), callback = cb\<rparr>"
  from Suc obtain os where iv: "intervals s = os @ [t]"
    and os: "\<forall>u\<in>set os. ident u \<noteq> i"
    and ck: "clock s = clock ts + n"
    and fr: "firingsOf i s = firingsOf i ts @ map (\<lambda>k. (clock ts + d * k, i, cb)) [1..<Suc (n div d)]"
    unfolding s_def t_def by blast
  define os' where
    "os' = map (\<lambda>t. if due t = Suc (clock s) then t\<lparr>due := Suc (clock s) + delay t\<rparr> else t) os"
  have step: "elapse (Suc n) s0 = tick s" by (simp add: s_def)
  have os': "\<forall>u\<in>set os'. ident u \<noteq> i"
    using os by (auto simp add: os'_def)
  have ck': "clock (tick s) = clock ts + Suc n"
    using ck by (simp add: tick_clock)
  have fires: "(due t = Suc (clock s)) = (Suc n mod d = 0)"
    using due_step [OF d, of n] ck by (auto simp add: t_def)
  have idt: "ident t = i" "callback t = cb" "delay t = d" by (simp_all add: t_def)
  have os_t: "\<forall>u\<in>set os. ident u \<noteq> ident t" using os idt by simp
  have f: "firingsOf i (tick s)
      = firingsOf i s @ (if Suc n mod d = 0 then [(Suc (clock ts + n), i, cb)] else [])"
    using tick_firings [OF iv os_t] fires ck idt by simp
  have iv': "intervals (tick s)
      = os' @ [if Suc n mod d = 0 then t\<lparr>due := Suc (clock ts + n) + d\<rparr> else t]"
    using tick_intervals_snoc [OF iv] fires ck idt by (simp add: os'_def)
  show ?case
  proof (cases "Suc n mod d = 0")
    case True
    then have dv: "Suc n div d = Suc (n div d)" by (simp add: div_Suc)
    have eq: "d * Suc (n div d) = Suc n" using due_step [OF d, of n] True by simp
    have "Suc (clock ts + n) + d = clock ts + d * Suc (Suc n div d)"
      using eq dv by simp
    then have a: "intervals (tick s)
        = os' @ [\<lparr>ident = i, delay = d, due = clock ts + d * Suc (Suc n div d), callback = cb\<rparr>]"
      using iv' True by (simp add: t_def)
    have "Suc (clock ts + n) = clock ts + d * Suc (n div d)" using eq by simp
    then have b: "firingsOf i (tick s)
        = firingsOf i ts @ map (\<lambda>k. (clock ts + d * k, i, cb)) [1..<Suc (Suc n div d)]"
      using f fr True dv by simp
    from a b os' ck' show ?thesis unfolding step by blast
  next
    case False
    then have dv: "Suc n div d = n div d" by (simp add: div_Suc)
    have a: "intervals (tick s)
        = os' @ [\<lparr>ident = i, delay = d, due = clock ts + d * Suc (Suc n div d), callback = cb\<rparr>]"
      using iv' False dv by (simp add: t_def)
    have b: "firingsOf i (tick s)
        = firingsOf i ts @ map (\<lambda>k. (clock ts + d * k, i, cb)) [1..<Suc (Suc n div d)]"
      using f fr False dv by simp
    from a b os' ck' show ?thesis unfolding step by blast
  qed
qed

lemma tick_idents: "map ident (intervals (tick ts)) = map ident (intervals ts)"
  by (simp add: tick_def o_def if_distrib [of ident])

lemma elapse_cleared:
  assumes "\<forall>u\<in>set (intervals ts). ident u \<noteq> i"
  shows "(\<forall>u\<in>set (intervals (elapse n ts)). ident u \<noteq> i) \<and> firingsOf i (elapse n ts) = firingsOf i ts"
proof (induction n)
  case 0
  show ?case using assms by simp
next
  case (Suc n)
  then have a: "\<forall>u\<in>set (intervals (elapse n ts)). ident u \<noteq> i"
    and b: "firingsOf i (elapse n ts) = firingsOf i ts" by simp_all
  have "firingsOf i (tick (elapse n ts)) = firingsOf i (elapse n ts)"
    using a by (simp add: firingsOf_def tick_def filter_map o_def filter_empty_conv)
  moreover have "\<forall>u\<in>set (intervals (tick (elapse n ts))). ident u \<noteq> i"
  proof
    fix u assume "u \<in> set (intervals (tick (elapse n ts)))"
    then have "ident u \<in> set (map ident (intervals (tick (elapse n ts))))" by simp
    then have "ident u \<in> set (map ident (intervals (elapse n ts)))" by (simp only: tick_idents)
    then show "ident u \<noteq> i" using a by auto
  qed
  ultimately show ?case using b by simp
qed


text \<open>
  Claim C8, as amended. While a token is held and the user is authenticated, the
  effect registers one interval timer whose callback is checkAndRefreshToken and whose
  delay is 300000 milliseconds, that is 5 minutes; otherwise it registers nothing.
  Until teardown that timer, whose identifier no earlier timer carries, runs the check
  exactly at 5, 10, 15, ... minutes after its registration. A check whose refresh fulfils with true does nothing more. A check
  whose refresh fulfils with false, or rejects, calls logout, and navigates to the
  entry point once an awaited logout has fulfilled: a logout that rejects inside the
  try block is followed by a second call of logout in the catch block, and a logout
  that rejects in the catch block ends the check with an unhandled rejection and
  without navigation. The cleanup of the effect clears the timer: no timer with its
  identifier remains, and however much time passes the check does not run again.
\<close>

theorem background_revalidation:
  "(truthy token \<and> isAuth \<longrightarrow>
      effect token isAuth ts =
        (Some (nextId ts),
         ts\<lparr>intervals := intervals ts @
               [\<lparr>ident = nextId ts, delay = 300000, due = clock ts + 300000,
                 callback = checkAndRefreshToken\<rparr>],
            nextId := Suc (nextId ts)\<rparr>)) \<and>
   (truthy token \<and> isAuth \<and> (\<forall>u\<in>set (intervals ts). ident u \<noteq> nextId ts) \<longrightarrow>
      firingsOf (nextId ts) (elapse n (snd (effect token isAuth ts)))
        = firingsOf (nextId ts) ts
          @ map (\<lambda>k. (clock ts + 300000 * k, nextId ts, checkAndRefreshToken))
              [1..<Suc (n div 300000)]) \<and>
   (\<not> (truthy token \<and> isAuth) \<longrightarrow> effect token isAuth ts = (None, ts)) \<and>
   checkAndRefreshToken (Fulfils True) l1 l2 = ([CallRefreshAccessToken], Completed) \<and>
   checkAndRefreshToken (Fulfils False) (Fulfils ()) l2
     = ([CallRefreshAccessToken, CallLogout, Navigate ''/''], Completed) \<and>
   checkAndRefreshToken (Fulfils False) Rejects (Fulfils ())
     = ([CallRefreshAccessToken, CallLogout, ConsoleError, CallLogout, Navigate ''/''], Completed) \<and>
   checkAndRefreshToken (Fulfils False) Rejects Rejects
     = ([CallRefreshAccessToken, CallLogout, ConsoleError, CallLogout], UnhandledRejection) \<and>
   checkAndRefreshToken Rejects (Fulfils ()) l2
     = ([CallRefreshAccessToken, ConsoleError, CallLogout, Navigate ''/''], Completed) \<and>
   checkAndRefreshToken Rejects Rejects l2
     = ([CallRefreshAccessToken, ConsoleError, CallLogout], UnhandledRejection) \<and>
   (\<forall>u\<in>set (intervals (cleanup (Some i) ts')). ident u \<noteq> i) \<and>
   firingsOf i (elapse m (cleanup (Some i) ts')) = firingsOf i ts'"
proof -
  have reg: "truthy token \<and> isAuth \<longrightarrow>
      effect token isAuth ts =
        (Some (nextId ts),
         ts\<lparr>intervals := intervals ts @
               [\<lparr>ident = nextId ts, delay = 300000, due = clock ts + 300000,
                 callback = checkAndRefreshToken\<rparr>],
            nextId := Suc (nextId ts)\<rparr>)"
    by (simp add: effect_def setInterval_def truthy_def)
  have runs: "truthy token \<and> isAuth \<and> (\<forall>u\<in>set (intervals ts). ident u \<noteq> nextId ts) \<longrightarrow>
      firingsOf (nextId ts) (elapse n (snd (effect token isAuth ts)))
        = firingsOf (nextId ts) ts
          @ map (\<lambda>k. (clock ts + 300000 * k, nextId ts, checkAndRefreshToken))
              [1..<Suc (n div 300000)]"
  proof
    assume a: "truthy token \<and> isAuth \<and> (\<forall>u\<in>set (intervals ts). ident u \<noteq> nextId ts)"
    have s0: "snd (effect token isAuth ts) =
        ts\<lparr>intervals := intervals ts @
              [\<lparr>ident = nextId ts, delay = 300000, due = clock ts + 300000,
                callback = checkAndRefreshToken\<rparr>],
           nextId := Suc (nextId ts)\<rparr>"
      using a reg by simp
    have fresh: "\<forall>u\<in>set (intervals ts). ident u \<noteq> nextId ts" using a by simp
    have pos: "(0::nat) < 300000" by simp
    from elapse_registered [OF pos fresh s0, of n]
    show "firingsOf (nextId ts) (elapse n (snd (effect token isAuth ts)))
        = firingsOf (nextId ts) ts
          @ map (\<lambda>k. (clock ts + 300000 * k, nextId ts, checkAndRefreshToken))
              [1..<Suc (n div 300000)]"
      by blast
  qed
  have skip: "\<not> (truthy token \<and> isAuth) \<longrightarrow> effect token isAuth ts = (None, ts)"
    by (auto simp add: effect_def truthy_def)
  have checks:
    "checkAndRefreshToken (Fulfils True) l1 l2 = ([CallRefreshAccessToken], Completed)"
    "checkAndRefreshToken (Fulfils False) (Fulfils ()) l2
       = ([CallRefreshAccessToken, CallLogout, Navigate ''/''], Completed)"
    "checkAndRefreshToken (Fulfils False) Rejects (Fulfils ())
       = ([CallRefreshAccessToken, CallLogout, ConsoleError, CallLogout, Navigate ''/''], Completed)"
    "checkAndRefreshToken (Fulfils False) Rejects Rejects
       = ([CallRefreshAccessToken, CallLogout, ConsoleError, CallLogout], UnhandledRejection)"
    "checkAndRefreshToken Rejects (Fulfils ()) l2
       = ([CallRefreshAccessToken, ConsoleError, CallLogout, Navigate ''/''], Completed)"
    "checkAndRefreshToken Rejects Rejects l2
       = ([CallRefreshAccessToken, ConsoleError, CallLogout], UnhandledRejection)"
    by (simp_all add: checkAndRefreshToken_def catchBlock_def)
  have cleared: "\<forall>u\<in>set (intervals (cleanup (Some i) ts')). ident u \<noteq> i"
    by (simp add: cleanup_def clearInterval_def)
  have "firingsOf i (elapse m (cleanup (Some i) ts')) = firingsOf i (cleanup (Some i) ts')"
    using elapse_cleared [OF cleared, of m] by simp
  then have silent: "firingsOf i (elapse m (cleanup (Some i) ts')) = firingsOf i ts'"
    by (simp add: firingsOf_def cleanup_def clearInterval_def)
  show ?thesis
    using reg runs skip checks cleared silent by - (intro conjI, assumption+)
qed

theorem background_revalidation_witness:
  "truthy (Some ''acc'') \<and>
   intervals noTimers = [] \<and>
   effect (Some ''acc'') True noTimers =
     (Some 0, \<lparr>clock = 0,
               intervals = [\<lparr>ident = 0, delay = 300000, due = 300000,
                             callback = checkAndRefreshToken\<rparr>],
               nextId = 1, fired = []\<rparr>) \<and>
   firingsOf 0 (elapse 600000 (snd (effect (Some ''acc'') True noTimers)))
     = [(300000, 0, checkAndRefreshToken), (600000, 0, checkAndRefreshToken)] \<and>
   \<not> (truthy None \<and> True) \<and>
   effect None True noTimers = (None, noTimers) \<and>
   firingsOf 0 (elapse 900000
       (cleanup (Some 0) (elapse 600000 (snd (effect (Some ''acc'') True noTimers)))))
     = [(300000, 0, checkAndRefreshToken), (600000, 0, checkAndRefreshToken)]"
proof -
  let ?on = "snd (effect (Some ''acc'') True noTimers)"
  have t: "truthy (Some ''acc'')" by (simp add: truthy_def falsy_def)
  have f: "\<not> (truthy None \<and> True)" by (simp add: truthy_def falsy_def)
  have fresh: "\<forall>u\<in>set (intervals noTimers). ident u \<noteq> nextId noTimers"
    by (simp add: noTimers_def)
  have "(600000::nat) div 300000 = 2" by simp
  then have upt: "[1..<Suc (600000 div 300000)] = [1, 2 :: nat]" by (simp add: upt_rec)
  note a = background_revalidation
    [of "Some ''acc''" True noTimers 600000 "Fulfils ()" Rejects 0 "elapse 600000 ?on" 900000]
  note b = background_revalidation
    [of None True noTimers 600000 "Fulfils ()" Rejects 0 "elapse 600000 ?on" 900000]
  have "truthy (Some ''acc'') \<and> True \<longrightarrow>
      effect (Some ''acc'') True noTimers =
        (Some (nextId noTimers),
         noTimers\<lparr>intervals := intervals noTimers @
               [\<lparr>ident = nextId noTimers, delay = 300000, due = clock noTimers + 300000,
                 callback = checkAndRefreshToken\<rparr>],
            nextId := Suc (nextId noTimers)\<rparr>)"
    using a by - (elim conjE, assumption)
  with t have 1: "effect (Some ''acc'') True noTimers =
     (Some 0, \<lparr>clock = 0,
               intervals = [\<lparr>ident = 0, delay = 300000, due = 300000,
                             callback = checkAndRefreshToken\<rparr>],
               nextId = 1, fired = []\<rparr>)"
    by (simp add: noTimers_def)
  have "truthy (Some ''acc'') \<and> True \<and> (\<forall>u\<in>set (intervals noTimers). ident u \<noteq> nextId noTimers) \<longrightarrow>
      firingsOf (nextId noTimers) (elapse 600000 ?on)
        = firingsOf (nextId noTimers) noTimers
          @ map (\<lambda>k. (clock noTimers + 300000 * k, nextId noTimers, checkAndRefreshToken))
              [1..<Suc (600000 div 300000)]"
    using a by - (elim conjE, assumption)
  with t fresh have "firingsOf (nextId noTimers) (elapse 600000 ?on)
        = firingsOf (nextId noTimers) noTimers
          @ map (\<lambda>k. (clock noTimers + 300000 * k, nextId noTimers, checkAndRefreshToken))
              [1, 2]"
    unfolding upt by blast
  then have 2: "firingsOf 0 (elapse 600000 ?on)
     = [(300000, 0, checkAndRefreshToken), (600000, 0, checkAndRefreshToken)]"
    by (simp add: noTimers_def firingsOf_def)
  have "\<not> (truthy None \<and> True) \<longrightarrow> effect None True noTimers = (None, noTimers)"
    using b by - (elim conjE, assumption)
  with f have 3: "effect None True noTimers = (None, noTimers)" by blast
  have "firingsOf 0 (elapse 900000 (cleanup (Some 0) (elapse 600000 ?on)))
      = firingsOf 0 (elapse 600000 ?on)"
    using a by - (elim conjE, assumption)
  with 2 have 4: "firingsOf 0 (elapse 900000 (cleanup (Some 0) (elapse 600000 ?on)))
     = [(300000, 0, checkAndRefreshToken), (600000, 0, checkAndRefreshToken)]"
    by (simp only:)
  have none: "intervals noTimers = []" by (simp add: noTimers_def)
  show ?thesis
    using t none 1 2 f 3 4 by - (intro conjI, assumption+)
qed

theorem background_revalidation_counterexample:
  "checkAndRefreshToken Rejects Rejects (Fulfils ())
     = ([CallRefreshAccessToken, ConsoleError, CallLogout], UnhandledRejection) \<and>
   Navigate ''/'' \<notin> set (fst (checkAndRefreshToken Rejects Rejects (Fulfils ()))) \<and>
   checkAndRefreshToken (Fulfils False) Rejects Rejects
     = ([CallRefreshAccessToken, CallLogout, ConsoleError, CallLogout], UnhandledRejection) \<and>
   Navigate ''/'' \<notin> set (fst (checkAndRefreshToken (Fulfils False) Rejects Rejects))"
  by (simp add: checkAndRefreshToken_def catchBlock_def)

end
